theory Spec2Isabelle
  imports Main "HOL-Library.AList"
begin

section \<open>JavaScript values\<close>

text \<open>
  The values that reach the preview are decoded rows: primitives, plain objects and arrays.
  An object is the list of its own enumerable properties in the order \<open>Object.keys\<close>
  reports them; a well-formed object has pairwise distinct keys.  Numbers are carried
  around and never computed with, so an integer stands for them.  Property names are
  ordinary names (the accessor \<open>__proto__\<close> is outside the model).
\<close>

datatype jv =
    JUndefined
  | JNull
  | JBool bool
  | JNum int
  | JStr string
  | JObj "(string \<times> jv) list"
  | JArr "jv list"

type_synonym props = "(string \<times> jv) list"

datatype error = TypeError string | LibError string

text \<open>\<open>typeof v === 'object' && v !== null\<close>\<close>

fun is_object :: "jv \<Rightarrow> bool" where
  "is_object (JObj kvs) = True"
| "is_object (JArr xs) = True"
| "is_object v = False"

subsection \<open>Array indices as property names\<close>

text \<open>The decimal numeral of an index; \<open>digit\<close> is applied to numbers below ten only.\<close>

definition digit :: "nat \<Rightarrow> char" where
  "digit d = ''0123456789'' ! d"

function show_nat :: "nat \<Rightarrow> string" where
  "show_nat n = (if n < 10 then [digit n] else show_nat (n div 10) @ [digit (n mod 10)])"
  by pat_completeness auto
termination
  by (relation "measure id") auto

declare show_nat.simps [simp del]

definition index_keys :: "nat \<Rightarrow> string list" where
  "index_keys n = map show_nat [0..<n]"

text \<open>
  \<open>Object.keys(v)\<close> paired with \<open>v[key]\<close>, for a value on which \<open>Object.keys\<close>
  returns: an object's own properties, an array's elements under their indices, a
  string's characters under their indices, nothing for a number or a boolean.
\<close>

fun entries :: "jv \<Rightarrow> props" where
  "entries (JObj kvs) = kvs"
| "entries (JArr xs) = zip (index_keys (length xs)) xs"
| "entries (JStr s) = zip (index_keys (length s)) (map (\<lambda>c. JStr [c]) s)"
| "entries v = []"

subsection \<open>Property assignment\<close>

text \<open>
  \<open>target[key] = v\<close> is \<^const>\<open>AList.update\<close>: an existing property keeps its place
  and takes the new value, a new one is added at the end.
  \<open>Object.assign(target, source)\<close> assigns the source's properties one by one.
  JavaScript enumerates integer-like names before the others, whenever they were added;
  a list built here is in the order of the assignments, and two lists with the same
  content under \<^const>\<open>map_of\<close> stand for the same object.
\<close>

definition object_assign :: "props \<Rightarrow> props \<Rightarrow> props" where
  "object_assign target source = fold (\<lambda>kv t. AList.update (fst kv) (snd kv) t) source target"

section \<open>flattenObject\<close>

text \<open>
  The body of \<open>flattenObject\<close> once \<open>Object.keys(obj)\<close> has returned; the recursive
  call is made on object-typed values only, where it always does.  The loop runs over
  the keys and reads \<open>obj[key]\<close>, which for distinct keys is the value listed with
  the key.
\<close>

function flatten_props :: "jv \<Rightarrow> props" where
  "flatten_props obj =
     fold (\<lambda>kv flatObject.
             if is_object (snd kv)
             then object_assign flatObject (flatten_props (snd kv))
             else AList.update (fst kv) (snd kv) flatObject)
          (entries obj) []"
  by pat_completeness auto

lemma entries_size:
  "kv \<in> set (entries obj) \<Longrightarrow> is_object (snd kv) \<Longrightarrow> size (snd kv) < size obj"
proof (cases obj)
  case (JObj kvs)
  assume "kv \<in> set (entries obj)"
  with JObj have "kv \<in> set kvs" by simp
  then have "size (snd kv) < Suc (size_list (size_prod (\<lambda>_. 0) size) kvs)"
    by (induction kvs) (auto simp: less_Suc_eq_le)
  with JObj show ?thesis by simp
next
  case (JArr xs)
  assume "kv \<in> set (entries obj)"
  with JArr have "snd kv \<in> set xs" by (cases kv) (auto dest: set_zip_rightD)
  then have "size (snd kv) < Suc (size_list size xs)"
    by (induction xs) (auto simp: less_Suc_eq_le)
  with JArr show ?thesis by simp
next
  case (JStr s)
  assume "kv \<in> set (entries obj)" and "is_object (snd kv)"
  with JStr show ?thesis by (cases kv) (auto dest!: set_zip_rightD)
qed simp_all

termination flatten_props
  by (relation "measure size") (auto dest: entries_size)

declare flatten_props.simps [simp del]

text \<open>One round of the \<open>forEach\<close> loop, named for the proofs about it.\<close>

definition flat_step :: "string \<times> jv \<Rightarrow> props \<Rightarrow> props" where
  "flat_step kv flatObject =
     (if is_object (snd kv)
      then object_assign flatObject (flatten_props (snd kv))
      else AList.update (fst kv) (snd kv) flatObject)"

text \<open>
  \<open>flattenObject(obj)\<close>: \<open>Object.keys\<close> throws a TypeError on \<open>null\<close> and
  \<open>undefined\<close>; otherwise the fresh \<open>flatObject\<close> is returned.
\<close>

definition flattenObject :: "jv \<Rightarrow> error + jv" where
  "flattenObject obj =
     (if obj = JNull \<or> obj = JUndefined
      then Inl (TypeError ''Cannot convert undefined or null to object'')
      else Inr (JObj (flatten_props obj)))"


subsection \<open>The flatten rule as the specification words it\<close>

text \<open>
  The scalar leaf fields of a record, depth first in field order: a field whose value is
  itself a nested value contributes that value's leaf fields, any other field contributes
  itself.  A nested value is what the code tests for, an object-typed non-null value.
\<close>

function leaf_fields :: "jv \<Rightarrow> props" where
  "leaf_fields r =
     concat (map (\<lambda>kv. if is_object (snd kv) then leaf_fields (snd kv) else [kv]) (entries r))"
  by pat_completeness auto
termination
  by (relation "measure size") (auto dest: entries_size)

declare leaf_fields.simps [simp del]

text \<open>Merging a sequence of fields into one mapping, a later field replacing an earlier one.\<close>

definition merge_fields :: "props \<Rightarrow> (string \<rightharpoonup> jv)" where
  "merge_fields fields = fold (\<lambda>kv m. m(fst kv \<mapsto> snd kv)) fields Map.empty"

section \<open>Strings\<close>

text \<open>\<open>s.lastIndexOf(c)\<close> for a one-character search string: \<open>-1\<close> when absent.\<close>

definition lastIndexOf :: "string \<Rightarrow> char \<Rightarrow> int" where
  "lastIndexOf s c =
     (if c \<in> set s
      then int (length s) - 1 - int (length (takeWhile (\<lambda>x. x \<noteq> c) (rev s)))
      else - 1)"

text \<open>\<open>s.substr(start)\<close>: a negative start counts from the end of the string.\<close>

definition substr :: "string \<Rightarrow> int \<Rightarrow> string" where
  "substr s start =
     drop (nat (if start < 0 then max (int (length s) + start) 0 else start)) s"

fun starts_with :: "string \<Rightarrow> string \<Rightarrow> bool" where
  "starts_with s [] = True"
| "starts_with [] (p # ps) = False"
| "starts_with (c # s) (p # ps) = (c = p \<and> starts_with s ps)"

text \<open>\<open>s.indexOf(pat)\<close>: the first position at which \<open>pat\<close> occurs, \<open>-1\<close> when none.\<close>

fun indexOf :: "string \<Rightarrow> string \<Rightarrow> int" where
  "indexOf [] pat = (if pat = [] then 0 else - 1)"
| "indexOf (c # s) pat =
     (if starts_with (c # s) pat then 0
      else (let r = indexOf s pat in if r < 0 then - 1 else r + 1))"

text \<open>
  The replacement text of \<open>String.prototype.replace\<close> for a string pattern:
  \<open>$$\<close> is a dollar sign, \<open>$&\<close> the match, \<open>$`\<close> the text before it and
  \<open>$'\<close> the text after it; there are no capture groups, so any other \<open>$\<close> stays.
\<close>

fun substitution :: "string \<Rightarrow> string \<Rightarrow> string \<Rightarrow> string \<Rightarrow> string" where
  "substitution matched bef aft [] = []"
| "substitution matched bef aft [c] = [c]"
| "substitution matched bef aft (c # d # r) =
     (if c = CHR ''$'' \<and> d = CHR ''$'' then CHR ''$'' # substitution matched bef aft r
      else if c = CHR ''$'' \<and> d = CHR ''&'' then matched @ substitution matched bef aft r
      else if c = CHR ''$'' \<and> d = CHR 0x60 then bef @ substitution matched bef aft r
      else if c = CHR ''$'' \<and> d = CHR 0x27 then aft @ substitution matched bef aft r
      else c # substitution matched bef aft (d # r))"

text \<open>\<open>s.replace(pat, repl)\<close> with a string pattern: the first occurrence only.\<close>

definition replace :: "string \<Rightarrow> string \<Rightarrow> string \<Rightarrow> string" where
  "replace s pat repl =
     (let i = indexOf s pat in
      if i < 0 then s
      else (let bef = take (nat i) s; aft = drop (nat i + length pat) s
            in bef @ substitution pat bef aft repl @ aft))"

text \<open>
  \<open>s.replace(RegExp('\.json$'), '')\<close>: inside a string literal \<open>\.\<close> is a plain dot,
  so the pattern is any character but a line terminator, then \<open>json\<close>, at the end.
\<close>

definition strip_json_suffix :: "string \<Rightarrow> string" where
  "strip_json_suffix s =
     (let n = length s in
      if 5 \<le> n \<and> drop (n - 4) s = ''json'' \<and> s ! (n - 5) \<noteq> CHR 0x0A \<and> s ! (n - 5) \<noteq> CHR 0x0D
      then take (n - 5) s else s)"


section \<open>The preview and its surroundings\<close>

text \<open>
  What a data preview holds (\<open>_uri\<close>, \<open>_fileName\<close>, \<open>_fileExtension\<close>, \<open>_config\<close>,
  \<open>_schema\<close>, \<open>_tableList\<close>, \<open>_dataTable\<close>) together with the part of the world
  its methods act on: the file system, the messages posted to the webview and the
  notifications shown in the window, both oldest first.  Logging and the panel itself
  leave no trace here.
\<close>

datatype data = DUndefined | DNull | DText string | DRows "jv list"

record message =
  m_fileName :: string
  m_uri :: string
  m_config :: jv
  m_schema :: jv
  m_tableList :: "string list"
  m_table :: string
  m_data :: data

datatype posted = PostRefresh message | PostError error

datatype notice = ErrorMessage string | InformationMessage string

record preview =
  uri_fsPath :: string
  uri_string :: string
  fileName :: string
  fileExtension :: string
  config :: jv
  schema :: jv
  tableList :: "string list"
  dataTable :: string
  files :: "string \<rightharpoonup> string"
  writable :: "string \<Rightarrow> bool"
  postMessage :: "posted list"
  shown :: "notice list"

text \<open>
  The libraries the preview calls, as parameters: \<open>JSON.stringify(v, null, 2)\<close>,
  \<open>xlsx.readFile\<close> (told whether it reads in binary mode, and given the file's
  content), \<open>Table.from\<close> of the Arrow library, and the \<open>dataTypes\<close> table of the
  extension's configuration module.
\<close>

record workbook =
  SheetNames :: "string list"
  Sheets :: "string \<rightharpoonup> jv list"

record arrow_table =
  a_length :: nat
  a_fields :: "(string \<times> string) list"
  a_get :: "nat \<Rightarrow> nat \<Rightarrow> jv"
  a_schema :: jv

record libs =
  stringify :: "jv \<Rightarrow> string"
  xlsx_readFile :: "bool \<Rightarrow> string \<Rightarrow> error + workbook"
  arrow_from :: "string \<Rightarrow> error + arrow_table"
  dataTypes :: "string \<Rightarrow> jv"

text \<open>
  A worksheet is represented by the row objects \<open>sheet_to_json\<close> makes of it; for a
  sheet the workbook does not have, \<open>sheet_to_json(undefined)\<close> is the empty array.
\<close>

definition sheet_to_json :: "jv list option \<Rightarrow> jv list" where
  "sheet_to_json worksheet = (case worksheet of None \<Rightarrow> [] | Some rows \<Rightarrow> rows)"

subsection \<open>The constructor\<close>

text \<open>
  The file name is \<open>path.basename(uri.fsPath)\<close>, handed in as computed by the path
  library; the extension is the file name from its last dot on.
\<close>

definition extension_of :: "string \<Rightarrow> string" where
  "extension_of name = substr name (lastIndexOf name CHR ''.'')"

definition DataPreview ::
  "string \<Rightarrow> string \<Rightarrow> string \<Rightarrow> jv \<Rightarrow> (string \<rightharpoonup> string) \<Rightarrow> preview" where
  "DataPreview fsPath uriString baseName viewConfig fs =
     \<lparr> uri_fsPath = fsPath, uri_string = uriString, fileName = baseName,
       fileExtension = extension_of baseName,
       config = viewConfig, schema = JUndefined, tableList = [], dataTable = [],
       files = fs, writable = (\<lambda>_. True), postMessage = [], shown = [] \<rparr>"

subsection \<open>createJsonFile\<close>

text \<open>
  Nothing happens when a file exists at the path.  Otherwise a write stream is opened on
  the path and the text written.  A stream that cannot be opened says so later, by an
  event: \<open>createJsonFile\<close> has returned by then and its \<open>try\<close> does not see it, so
  no file appears and no notice is shown.  The \<open>catch\<close> block answers a synchronous
  throw only, which a path that is a string without a null character does not cause.
\<close>

definition createJsonFile :: "libs \<Rightarrow> string \<Rightarrow> jv \<Rightarrow> preview \<Rightarrow> preview" where
  "createJsonFile L jsonFilePath jsonData st =
     (if jsonFilePath \<in> dom (files st) then st
      else (let jsonString = stringify L jsonData in
            if writable st jsonFilePath
            then st\<lparr>files := (files st)(jsonFilePath \<mapsto> jsonString)\<rparr>
            else st))"

subsection \<open>loadData\<close>

text \<open>
  A method returns the state it leaves behind and the exception it threw, if any.
  \<open>data.length\<close> throws a TypeError on \<open>null\<close>.
\<close>

definition data_length :: "data \<Rightarrow> nat" where
  "data_length d = (case d of DText t \<Rightarrow> length t | DRows rows \<Rightarrow> length rows | _ \<Rightarrow> 0)"

definition loadData :: "data \<Rightarrow> preview \<Rightarrow> error option \<times> preview" where
  "loadData d st =
     (if d = DUndefined then (None, st)
      else if d = DNull then (Some (TypeError ''Cannot read property 'length' of null''), st)
      else if data_length d \<le> 0 then (None, st)
      else (None, st\<lparr>postMessage := postMessage st @
              [PostRefresh \<lparr> m_fileName = fileName st, m_uri = uri_string st,
                             m_config = config st, m_schema = schema st,
                             m_tableList = tableList st, m_table = dataTable st,
                             m_data = d \<rparr>]\<rparr>))"


subsection \<open>Spreadsheets\<close>

definition getExcelData :: "libs \<Rightarrow> workbook \<Rightarrow> preview \<Rightarrow> jv list \<times> preview" where
  "getExcelData L wb st =
     (if length (SheetNames wb) > 0 then
        (let st1 = (if length (SheetNames wb) > 1 then st\<lparr>tableList := SheetNames wb\<rparr> else st);
             sheetName = (if length (dataTable st1) > 0 then dataTable st1 else SheetNames wb ! 0);
             dataRows = sheet_to_json (Sheets wb sheetName);
             jsonFilePath = replace (uri_fsPath st1) (fileExtension st1) ''.json'';
             jsonFilePath' =
               (if length (dataTable st1) > 0 \<and> length (tableList st1) > 1
                then replace jsonFilePath ''.json'' (''-'' @ sheetName @ ''.json'')
                else jsonFilePath)
         in (dataRows, createJsonFile L jsonFilePath' (JArr dataRows) st1))
      else ([], st))"

subsection \<open>Arrow\<close>

text \<open>One row object per row index, its properties assigned field by field.\<close>

definition arrow_row :: "arrow_table \<Rightarrow> nat \<Rightarrow> jv" where
  "arrow_row t i =
     JObj (fold (\<lambda>(index, fieldName) proto. AList.update fieldName (a_get t index i) proto)
             (zip [0..<length (a_fields t)] (map fst (a_fields t))) [])"

definition arrow_field_type :: "string \<Rightarrow> string" where
  "arrow_field_type fieldType =
     (let typesIndex = indexOf fieldType ''<'' in
      if typesIndex > 0 then take (nat typesIndex) fieldType else fieldType)"

definition getArrowData :: "libs \<Rightarrow> arrow_table \<Rightarrow> preview \<Rightarrow> jv list \<times> preview" where
  "getArrowData L t st =
     (let rows = map (arrow_row t) [0..<a_length t];
          st1 = st\<lparr>schema := JObj (fold (\<lambda>(name, fieldType) sch.
                                  AList.update name (dataTypes L (arrow_field_type fieldType)) sch)
                               (a_fields t) [])\<rparr>;
          st2 = createJsonFile L (replace (uri_fsPath st1) (fileExtension st1) ''.json'')
                  (JArr rows) st1;
          st3 = createJsonFile L (replace (uri_fsPath st2) (fileExtension st2) ''.schema.json'')
                  (a_schema t) st2
      in (rows, st3))"

subsection \<open>Avro\<close>

text \<open>
  \<open>getAvroData\<close> opens a block decoder, registers three handlers and returns the row
  array, still empty at that moment.  The decoder's events arrive later; the handlers
  share the variables \<open>dataSchema\<close> and \<open>dataRows\<close>.
\<close>

datatype avro_event = Metadata jv | Data jv | End

record avro_vars =
  dataSchema :: jv
  dataRows :: "jv list"

definition avro_start :: avro_vars where
  "avro_start = \<lparr> dataSchema = JObj [], dataRows = [] \<rparr>"

text \<open>\<open>rows.map(row => flattenObject(row))\<close>: the first row that throws ends the map.\<close>

fun flatten_rows :: "jv list \<Rightarrow> error + jv list" where
  "flatten_rows [] = Inr []"
| "flatten_rows (row # rows) =
     (case flattenObject row of
        Inl e \<Rightarrow> Inl e
      | Inr flat \<Rightarrow> (case flatten_rows rows of Inl e \<Rightarrow> Inl e | Inr flats \<Rightarrow> Inr (flat # flats)))"

definition avro_on_end :: "libs \<Rightarrow> avro_vars \<Rightarrow> preview \<Rightarrow> error option \<times> avro_vars \<times> preview" where
  "avro_on_end L v st =
     (let st1 = createJsonFile L (replace (uri_fsPath st) (fileExtension st) ''.json'')
                  (JArr (dataRows v)) st;
          st2 = createJsonFile L (replace (uri_fsPath st1) (fileExtension st1) ''.schema.json'')
                  (dataSchema v) st1
      in case flatten_rows (dataRows v) of
           Inl e \<Rightarrow> (Some e, v, st2)
         | Inr flats \<Rightarrow>
             (let (err, st3) = loadData (DRows flats) st2 in (err, v\<lparr>dataRows := flats\<rparr>, st3)))"

fun avro_on :: "libs \<Rightarrow> avro_event \<Rightarrow> avro_vars \<Rightarrow> preview \<Rightarrow> error option \<times> avro_vars \<times> preview" where
  "avro_on L (Metadata type) v st = (None, v\<lparr>dataSchema := type\<rparr>, st)"
| "avro_on L (Data d) v st = (None, v\<lparr>dataRows := dataRows v @ [d]\<rparr>, st)"
| "avro_on L End v st = avro_on_end L v st"

text \<open>
  The events of one decode, handled in order.  An exception leaving a handler is kept,
  and the later events are still delivered, as an event emitter does.
\<close>

fun avro_events :: "libs \<Rightarrow> avro_event list \<Rightarrow> avro_vars \<Rightarrow> preview \<Rightarrow> error list \<times> avro_vars \<times> preview" where
  "avro_events L [] v st = ([], v, st)"
| "avro_events L (ev # evs) v st =
     (let (err, v1, st1) = avro_on L ev v st;
          (errs, v2, st2) = avro_events L evs v1 st1
      in ((case err of None \<Rightarrow> [] | Some e \<Rightarrow> [e]) @ errs, v2, st2))"

subsection \<open>getFileData\<close>

datatype decoder = Passthrough | BinarySpreadsheet | TextSpreadsheet | Columnar | Avro | Parquet

text \<open>The labels of the \<open>switch\<close> on \<open>_fileExtension\<close>, compared with \<open>===\<close>.\<close>

definition decoder_of :: "string \<Rightarrow> decoder option" where
  "decoder_of ext =
     (if ext \<in> set [''.csv'', ''.tsv'', ''.txt'', ''.tab'', ''.json''] then Some Passthrough
      else if ext \<in> set [''.xls'', ''.xlsb'', ''.xlsx'', ''.xlsm'', ''.slk'', ''.ods'', ''.prn'']
        then Some BinarySpreadsheet
      else if ext \<in> set [''.dif'', ''.xml'', ''.html''] then Some TextSpreadsheet
      else if ext = ''.arrow'' then Some Columnar
      else if ext = ''.avro'' then Some Avro
      else if ext = ''.parquet'' then Some Parquet
      else None)"

text \<open>
  The data file path is \<open>path.join(path.dirname(uri.fsPath), fileName)\<close>, which for the
  preview's own file is \<open>uri.fsPath\<close> again.  The result is the data, or the exception a
  library threw, and the state left behind.
\<close>

definition run_decoder :: "libs \<Rightarrow> decoder \<Rightarrow> string \<Rightarrow> preview \<Rightarrow> (error + data) \<times> preview" where
  "run_decoder L d content st =
     (case d of
        Passthrough \<Rightarrow> (Inr (DText content), st)
      | BinarySpreadsheet \<Rightarrow>
          (case xlsx_readFile L True content of
             Inl e \<Rightarrow> (Inl e, st)
           | Inr wb \<Rightarrow> (let (rows, st1) = getExcelData L wb st in (Inr (DRows rows), st1)))
      | TextSpreadsheet \<Rightarrow>
          (case xlsx_readFile L False content of
             Inl e \<Rightarrow> (Inl e, st)
           | Inr wb \<Rightarrow> (let (rows, st1) = getExcelData L wb st in (Inr (DRows rows), st1)))
      | Columnar \<Rightarrow>
          (case arrow_from L content of
             Inl e \<Rightarrow> (Inl e, st)
           | Inr t \<Rightarrow> (let (rows, st1) = getArrowData L t st in (Inr (DRows rows), st1)))
      | Avro \<Rightarrow> (Inr (DRows (dataRows avro_start)), st)
      | Parquet \<Rightarrow>
          (Inr DNull,
           st\<lparr>shown := shown st @ [InformationMessage ''Parquet data format support coming soon!'']\<rparr>))"

definition getFileData :: "libs \<Rightarrow> string \<Rightarrow> preview \<Rightarrow> (error + data) \<times> preview" where
  "getFileData L filePath st =
     (case files st (uri_fsPath st) of
        None \<Rightarrow> (Inr DNull, st\<lparr>shown := shown st @ [ErrorMessage (filePath @ '' doesn't exist!'')]\<rparr>)
      | Some content \<Rightarrow>
          (case decoder_of (fileExtension st) of
             None \<Rightarrow> (Inr DNull, st)
           | Some d \<Rightarrow> run_decoder L d content st))"

subsection \<open>refresh\<close>

text \<open>
  The call of \<open>getFileData\<close> is inside \<open>try\<close>: an exception is posted to the webview
  and the data stays the empty array.  The call of \<open>loadData\<close> comes after the
  \<open>catch\<close> block.
\<close>

definition refresh :: "libs \<Rightarrow> string \<Rightarrow> preview \<Rightarrow> error option \<times> preview" where
  "refresh L table st =
     (let st1 = (if length table > 0 then st\<lparr>dataTable := table\<rparr> else st) in
      case getFileData L (fileName st1) st1 of
        (Inl e, st2) \<Rightarrow> loadData (DRows []) (st2\<lparr>postMessage := postMessage st2 @ [PostError e]\<rparr>)
      | (Inr d, st2) \<Rightarrow> loadData d st2)"

subsection \<open>loadConfig\<close>

text \<open>
  The parsed content of the view config file the user picked.  A property the file does
  not have reads as \<open>undefined\<close>, which \<open>indexOf\<close> and the message template turn into
  the text \<open>undefined\<close>.
\<close>

record view_config =
  vc_dataFileName :: "string option"
  vc_config :: jv
  vc_dataTable :: "string option"

definition to_text :: "string option \<Rightarrow> string" where
  "to_text v = (case v of None \<Rightarrow> ''undefined'' | Some t \<Rightarrow> t)"

definition mismatch_message :: "string \<Rightarrow> string \<Rightarrow> string" where
  "mismatch_message dataFileName name =
     ''Config data file '' @ [CHR 0x27] @ dataFileName @ [CHR 0x27] @ '' doesn't match '' @
     [CHR 0x27] @ name @ [CHR 0x27] @ ''!''"

definition loadConfig :: "libs \<Rightarrow> view_config \<Rightarrow> preview \<Rightarrow> error option \<times> preview" where
  "loadConfig L viewConfig st =
     (if indexOf (uri_fsPath st) (to_text (vc_dataFileName viewConfig)) \<ge> 0
      then (let st1 = st\<lparr>config := vc_config viewConfig,
                          dataTable := (case vc_dataTable viewConfig of None \<Rightarrow> [] | Some t \<Rightarrow> t)\<rparr>
            in refresh L (dataTable st1) st1)
      else (None, st\<lparr>shown := shown st @
              [ErrorMessage (mismatch_message (to_text (vc_dataFileName viewConfig)) (fileName st))]\<rparr>))"


section \<open>The Avro content provider\<close>

text \<open>
  The provider keeps \<open>jsonFileDataMap\<close>, from a path to a \<open>JsonData\<close> object.  The
  objects are shared between the map and the handlers of the request that made them, so
  they live in a store and the map holds references.  Also kept: the paths handed to
  \<open>avro.createFileDecoder\<close>, the file system \<open>fs.writeFile\<close> acts on, the change
  events fired and the notifications shown.
\<close>

record uri =
  u_path :: string
  u_string :: string

record provider =
  viewType :: string
  jsonFileDataMap :: "string \<rightharpoonup> nat"
  jsonData :: "nat \<Rightarrow> string"
  allocated :: nat
  decoders :: "string list"
  p_files :: "string \<rightharpoonup> string"
  p_writable :: "string \<Rightarrow> bool"
  fired :: "string list"
  p_shown :: "notice list"

text \<open>
  One call of \<open>provideTextDocumentContent\<close>: its promise (settled by the first
  \<open>resolve\<close> only) and the variables its handlers close over.
\<close>

record request =
  r_uri :: uri
  r_jsonData :: nat
  r_dataFilePath :: string
  r_dataSchema :: jv
  r_dataRows :: "jv list"
  resolved :: "string option"

definition AvroContentProvider :: "string \<Rightarrow> (string \<rightharpoonup> string) \<Rightarrow> provider" where
  "AvroContentProvider vt fs =
     \<lparr> viewType = vt, jsonFileDataMap = Map.empty, jsonData = (\<lambda>_. []), allocated = 0,
       decoders = [], p_files = fs, p_writable = (\<lambda>_. True), fired = [], p_shown = [] \<rparr>"

definition resolve :: "string \<Rightarrow> request \<Rightarrow> request" where
  "resolve v r = (if resolved r = None then r\<lparr>resolved := Some v\<rparr> else r)"

text \<open>\<open>fs.writeFile\<close> replaces the content of an existing file.\<close>

definition writeFile :: "string \<Rightarrow> string \<Rightarrow> provider \<Rightarrow> provider" where
  "writeFile filePath text p =
     (if p_writable p filePath
      then p\<lparr>p_files := (p_files p)(filePath \<mapsto> text)\<rparr>
      else p\<lparr>p_shown := p_shown p @ [ErrorMessage (''Failed to save file: '' @ filePath)]\<rparr>)"

text \<open>
  The executor of the promise, up to the registration of the handlers.  After
  \<open>resolve\<close> on a cached entry the function goes on: there is no \<open>return\<close> or
  \<open>else\<close>.
\<close>

definition provideTextDocumentContent :: "uri \<Rightarrow> provider \<Rightarrow> request \<times> provider" where
  "provideTextDocumentContent u p =
     (let jsonFilePath = strip_json_suffix (u_path u);
          r0 = \<lparr> r_uri = u, r_jsonData = allocated p, r_dataFilePath = u_string u,
                 r_dataSchema = JObj [], r_dataRows = [], resolved = None \<rparr>;
          r1 = (case jsonFileDataMap p jsonFilePath of
                  Some cached \<Rightarrow> resolve (jsonData p cached) r0
                | None \<Rightarrow> r0)
      in (r1, p\<lparr> jsonData := (jsonData p)(allocated p := []),
                  allocated := Suc (allocated p),
                  jsonFileDataMap := (jsonFileDataMap p)(jsonFilePath \<mapsto> allocated p),
                  decoders := decoders p @ [u_string u] \<rparr>))"

text \<open>
  The handlers.  Those for \<open>data\<close> and \<open>end\<close> are registered for the view type
  \<open>avro.data.json\<close> only.
\<close>

fun provider_on :: "libs \<Rightarrow> avro_event \<Rightarrow> request \<Rightarrow> provider \<Rightarrow> request \<times> provider" where
  "provider_on L (Metadata type) r p =
     (let text = stringify L type;
          p1 = p\<lparr>jsonData := (jsonData p)(r_jsonData r := text),
                 fired := fired p @ [u_string (r_uri r)]\<rparr>;
          p2 = writeFile (replace (r_dataFilePath r) ''.avro'' ''.avro.schema.json'') text p1
      in (resolve text (r\<lparr>r_dataSchema := type\<rparr>), p2))"
| "provider_on L (Data d) r p =
     (if viewType p = ''avro.data.json''
      then (let rows = r_dataRows r @ [d]
            in (r\<lparr>r_dataRows := rows\<rparr>,
                p\<lparr>jsonData := (jsonData p)(r_jsonData r := stringify L (JArr rows)),
                  fired := fired p @ [u_string (r_uri r)]\<rparr>))
      else (r, p))"
| "provider_on L End r p =
     (if viewType p = ''avro.data.json''
      then (let text = stringify L (JArr (r_dataRows r));
                p1 = p\<lparr>jsonData := (jsonData p)(r_jsonData r := text)\<rparr>;
                p2 = writeFile (replace (r_dataFilePath r) ''.avro'' ''.avro.json'') text p1
            in (resolve text r, p2))
      else (r, p))"

fun provider_events :: "libs \<Rightarrow> avro_event list \<Rightarrow> request \<Rightarrow> provider \<Rightarrow> request \<times> provider" where
  "provider_events L [] r p = (r, p)"
| "provider_events L (ev # evs) r p =
     (let (r1, p1) = provider_on L ev r p in provider_events L evs r1 p1)"

section \<open>Concrete libraries for evaluation\<close>

text \<open>
  A compact serializer (no indentation, no escapes) and readers that reject every file,
  used where a statement is evaluated at a concrete input.
\<close>

fun join :: "string \<Rightarrow> string list \<Rightarrow> string" where
  "join sep [] = []"
| "join sep [x] = x"
| "join sep (x # y # ys) = x @ sep @ join sep (y # ys)"

definition show_int :: "int \<Rightarrow> string" where
  "show_int i = (if i < 0 then ''-'' @ show_nat (nat (- i)) else show_nat (nat i))"

fun compact_json :: "jv \<Rightarrow> string" where
  "compact_json JUndefined = ''null''"
| "compact_json JNull = ''null''"
| "compact_json (JBool b) = (if b then ''true'' else ''false'')"
| "compact_json (JNum i) = show_int i"
| "compact_json (JStr t) = [CHR 0x22] @ t @ [CHR 0x22]"
| "compact_json (JObj kvs) =
     ''{'' @ join '','' (map (\<lambda>kv. [CHR 0x22] @ fst kv @ [CHR 0x22] @ '':'' @ compact_json (snd kv)) kvs) @ ''}''"
| "compact_json (JArr xs) = ''['' @ join '','' (map compact_json xs) @ '']''"

definition sample_libs :: libs where
  "sample_libs =
     \<lparr> stringify = compact_json,
       xlsx_readFile = (\<lambda>binary content. Inl (LibError ''Unsupported file'')),
       arrow_from = (\<lambda>content. Inl (LibError ''Invalid Arrow file'')),
       dataTypes = (\<lambda>name. JUndefined) \<rparr>"

section \<open>The format table of the specification\<close>

text \<open>
  The extensions the specification enumerates for the format detector, each with the
  decoder it names, in the specification's order.  For the columnar and the Avro format
  the specification names no extension; the labels of the code stand for them.
\<close>

definition supported_extensions :: "(string \<times> decoder) list" where
  "supported_extensions =
     [(''csv'', Passthrough), (''tsv'', Passthrough), (''txt'', Passthrough),
      (''tab'', Passthrough), (''json'', Passthrough),
      (''xls'', BinarySpreadsheet), (''xlsb'', BinarySpreadsheet), (''xlsx'', BinarySpreadsheet),
      (''xlsm'', BinarySpreadsheet), (''slk'', BinarySpreadsheet), (''ods'', BinarySpreadsheet),
      (''prn'', BinarySpreadsheet),
      (''dif'', TextSpreadsheet), (''xml'', TextSpreadsheet), (''html'', TextSpreadsheet),
      (''arrow'', Columnar), (''avro'', Avro)]"


section \<open>Properties of flattenObject\<close>

lemma fold_upd_map_of:
  "fold (\<lambda>kv m. m(fst kv \<mapsto> snd kv)) fs m0 = m0 ++ map_of (rev fs)"
  by (induction fs arbitrary: m0) (auto simp: map_of_append)

lemma merge_fields_rev: "merge_fields fs = map_of (rev fs)"
  by (simp add: merge_fields_def fold_upd_map_of)

lemma merge_fields_append: "merge_fields (fs @ gs) = merge_fields fs ++ merge_fields gs"
  by (simp add: merge_fields_rev map_of_append)

lemma map_of_object_assign:
  "map_of (object_assign t s) = map_of t ++ merge_fields s"
  unfolding object_assign_def merge_fields_rev
  by (induction s arbitrary: t) (auto simp: update_conv' map_of_append)

lemma distinct_object_assign:
  "distinct (map fst t) \<Longrightarrow> distinct (map fst (object_assign t s))"
  unfolding object_assign_def
  by (induction s arbitrary: t) (auto simp: distinct_update)

lemma flatten_props_fold: "flatten_props obj = fold flat_step (entries obj) []"
  by (subst flatten_props.simps) (simp add: flat_step_def[abs_def])

lemma distinct_fold_flat_step:
  "distinct (map fst acc) \<Longrightarrow> distinct (map fst (fold flat_step es acc))"
  by (induction es arbitrary: acc)
     (auto simp: flat_step_def distinct_update distinct_object_assign)

lemma distinct_flatten_props: "distinct (map fst (flatten_props obj))"
  by (simp add: flatten_props_fold distinct_fold_flat_step)

lemma merge_fields_distinct: "distinct (map fst fs) \<Longrightarrow> merge_fields fs = map_of fs"
proof (induction fs)
  case Nil
  then show ?case by (simp add: merge_fields_rev)
next
  case (Cons kv fs)
  then have "fst kv \<notin> dom (map_of fs)" by (simp add: dom_map_of_conv_image_fst)
  then have "map_of fs ++ [fst kv \<mapsto> snd kv] = (map_of fs)(fst kv \<mapsto> snd kv)" by simp
  moreover have "[fst kv \<mapsto> snd kv] ++ map_of fs = (map_of fs)(fst kv \<mapsto> snd kv)"
    using \<open>fst kv \<notin> dom (map_of fs)\<close>
    by (auto simp: map_add_def fun_eq_iff split: option.splits)
  ultimately show ?case using Cons
    by (cases kv) (simp add: merge_fields_rev map_of_append)
qed

lemma map_of_fold_flat_step:
  assumes "\<And>kv. kv \<in> set es \<Longrightarrow> is_object (snd kv) \<Longrightarrow>
             map_of (flatten_props (snd kv)) = merge_fields (leaf_fields (snd kv))"
  shows "map_of (fold flat_step es acc) =
         map_of acc ++ merge_fields (concat (map (\<lambda>kv. if is_object (snd kv) then leaf_fields (snd kv) else [kv]) es))"
  using assms
proof (induction es arbitrary: acc)
  case Nil
  then show ?case by (simp add: merge_fields_rev)
next
  case (Cons kv es)
  have step: "map_of (flat_step kv acc) =
        map_of acc ++ merge_fields (if is_object (snd kv) then leaf_fields (snd kv) else [kv])"
  proof (cases "is_object (snd kv)")
    case True
    then show ?thesis
      using Cons.prems[of kv] merge_fields_distinct[OF distinct_flatten_props, of "snd kv"]
      by (simp add: flat_step_def map_of_object_assign)
  next
    case False
    then show ?thesis
      by (simp add: flat_step_def update_conv' merge_fields_rev)
  qed
  have "map_of (fold flat_step es (flat_step kv acc)) =
        map_of (flat_step kv acc) ++ merge_fields (concat (map (\<lambda>kv. if is_object (snd kv) then leaf_fields (snd kv) else [kv]) es))"
    by (rule Cons.IH) (simp add: Cons.prems)
  then show ?case
    by (simp add: step merge_fields_append)
qed

lemma map_of_flatten_props:
  "map_of (flatten_props obj) = merge_fields (leaf_fields obj)"
proof (induction obj rule: flatten_props.induct)
  case (1 obj)
  have "map_of (fold flat_step (entries obj) []) =
        map_of [] ++ merge_fields (concat (map (\<lambda>kv. if is_object (snd kv) then leaf_fields (snd kv) else [kv]) (entries obj)))"
    by (rule map_of_fold_flat_step) (rule "1.IH", assumption+)
  then show ?case
    using leaf_fields.simps[of obj] by (simp add: flatten_props_fold)
qed

lemma leaf_fields_primitive:
  "kv \<in> set (leaf_fields obj) \<Longrightarrow> \<not> is_object (snd kv)"
proof (induction obj arbitrary: kv rule: leaf_fields.induct)
  case (1 r)
  from "1.prems" leaf_fields.simps[of r]
  have "\<exists>e\<in>set (entries r). kv \<in> set (if is_object (snd e) then leaf_fields (snd e) else [e])"
    by auto
  then obtain e where e: "e \<in> set (entries r)"
    and kv: "kv \<in> set (if is_object (snd e) then leaf_fields (snd e) else [e])"
    by blast
  show ?case
  proof (cases "is_object (snd e)")
    case True
    with kv "1.IH"[OF e True] show ?thesis by simp
  next
    case False
    with kv show ?thesis by simp
  qed
qed


lemma digit_inj: "a < 10 \<Longrightarrow> b < 10 \<Longrightarrow> digit a = digit b \<Longrightarrow> a = b"
proof -
  assume a: "a < 10" and b: "b < 10" and eq: "digit a = digit b"
  have d: "distinct ''0123456789''" by simp
  have "length ''0123456789'' = 10" by simp
  with a b eq d show ?thesis
    unfolding digit_def by (metis nth_eq_iff_index_eq)
qed

lemma show_nat_nonempty: "show_nat n \<noteq> []"
  by (subst show_nat.simps) simp

lemma show_nat_inj: "show_nat n = show_nat m \<Longrightarrow> n = m"
proof (induction n arbitrary: m rule: show_nat.induct)
  case (1 n)
  show ?case
  proof (cases "n < 10")
    case n: True
    show ?thesis
    proof (cases "m < 10")
      case True
      with n "1.prems" show ?thesis
        by (simp add: show_nat.simps[of n] show_nat.simps[of m] digit_inj)
    next
      case False
      with n "1.prems" show ?thesis
        using show_nat_nonempty[of "m div 10"]
        by (auto simp: show_nat.simps[of n] show_nat.simps[of m])
    qed
  next
    case n: False
    show ?thesis
    proof (cases "m < 10")
      case True
      with n "1.prems" show ?thesis
        using show_nat_nonempty[of "n div 10"]
        by (auto simp: show_nat.simps[of n] show_nat.simps[of m])
    next
      case False
      with n "1.prems" have "show_nat (n div 10) = show_nat (m div 10)"
        and "digit (n mod 10) = digit (m mod 10)"
        by (simp_all add: show_nat.simps[of n] show_nat.simps[of m])
      then have "n div 10 = m div 10" and "n mod 10 = m mod 10"
        using "1.IH"[OF n] by (simp_all add: digit_inj)
      then show ?thesis by (metis div_mult_mod_eq)
    qed
  qed
qed

lemma distinct_index_keys: "distinct (index_keys n)"
  unfolding index_keys_def by (simp add: distinct_map inj_on_def show_nat_inj)

lemma leaf_fields_JObj_Nil: "leaf_fields (JObj []) = []"
  by (simp add: leaf_fields.simps)

lemma leaf_fields_JObj_append:
  "leaf_fields (JObj (xs @ ys)) = leaf_fields (JObj xs) @ leaf_fields (JObj ys)"
  by (simp add: leaf_fields.simps[of "JObj (xs @ ys)"] leaf_fields.simps[of "JObj xs"]
        leaf_fields.simps[of "JObj ys"])

lemma leaf_fields_JObj_Cons:
  "leaf_fields (JObj (kv # kvs)) =
     (if is_object (snd kv) then leaf_fields (snd kv) else [kv]) @ leaf_fields (JObj kvs)"
  by (simp add: leaf_fields.simps[of "JObj (kv # kvs)"] leaf_fields.simps[of "JObj kvs"])

lemma merge_fields_Some_mem: "merge_fields fs k = Some v \<Longrightarrow> (k, v) \<in> set fs"
  by (auto simp: merge_fields_rev dest: map_of_SomeD)

lemma dom_merge_fields: "dom (merge_fields fs) = fst ` set fs"
  by (simp add: merge_fields_rev dom_map_of_conv_image_fst)

lemma update_fresh: "k \<notin> fst ` set acc \<Longrightarrow> AList.update k v acc = acc @ [(k, v)]"
  by (induction acc) auto

lemma fold_flat_step_primitive:
  "distinct (map fst (acc @ kvs)) \<Longrightarrow> \<forall>kv\<in>set kvs. \<not> is_object (snd kv) \<Longrightarrow>
   fold flat_step kvs acc = acc @ kvs"
proof (induction kvs arbitrary: acc)
  case Nil
  then show ?case by simp
next
  case (Cons kv kvs)
  from Cons.prems have fresh: "fst kv \<notin> fst ` set acc" by auto
  from Cons.prems have "flat_step kv acc = acc @ [kv]"
    by (simp add: flat_step_def update_fresh[OF fresh])
  moreover from Cons.prems have "distinct (map fst ((acc @ [kv]) @ kvs))" by simp
  ultimately show ?case using Cons.IH[of "acc @ [kv]"] Cons.prems by simp
qed

lemma flatten_props_primitive:
  "distinct (map fst kvs) \<Longrightarrow> \<forall>kv\<in>set kvs. \<not> is_object (snd kv) \<Longrightarrow>
   flatten_props (JObj kvs) = kvs"
  using fold_flat_step_primitive[of "[]" kvs] by (simp add: flatten_props_fold)

lemma flattenObject_JObj: "flattenObject (JObj kvs) = Inr (JObj (flatten_props (JObj kvs)))"
  by (simp add: flattenObject_def)

lemma flatten_props_values: "map_of (flatten_props obj) k = Some v \<Longrightarrow> \<not> is_object v"
  using leaf_fields_primitive[of "(k, v)" obj]
  by (auto simp: map_of_flatten_props dest: merge_fields_Some_mem)

lemma merge_fields_concat_cong:
  "(\<And>e. e \<in> set es \<Longrightarrow> merge_fields (f e) = merge_fields (g e)) \<Longrightarrow>
   merge_fields (concat (map f es)) = merge_fields (concat (map g es))"
  by (induction es) (simp_all add: merge_fields_append)

lemma merge_fields_flatten_props: "merge_fields (flatten_props x) = merge_fields (leaf_fields x)"
  by (simp add: merge_fields_distinct[OF distinct_flatten_props] map_of_flatten_props)

lemma entries_JArr_zip:
  "entries (JArr xs) = map (\<lambda>(i, x). (show_nat i, x)) (zip [0..<length xs] xs)"
  by (simp add: index_keys_def zip_map1)

lemma map_of_flatten_props_JArr:
  "map_of (flatten_props (JArr xs)) =
   merge_fields (concat (map (\<lambda>(i, x). if is_object x then flatten_props x else [(show_nat i, x)])
                           (zip [0..<length xs] xs)))"
proof -
  have "leaf_fields (JArr xs) =
        concat (map (\<lambda>(i, x). if is_object x then leaf_fields x else [(show_nat i, x)])
                  (zip [0..<length xs] xs))"
    unfolding leaf_fields.simps[of "JArr xs"] entries_JArr_zip map_map
    by (intro arg_cong[where f=concat] map_cong) auto
  moreover have "merge_fields (concat (map (\<lambda>(i, x). if is_object x then leaf_fields x else [(show_nat i, x)])
                  (zip [0..<length xs] xs))) =
        merge_fields (concat (map (\<lambda>(i, x). if is_object x then flatten_props x else [(show_nat i, x)])
                  (zip [0..<length xs] xs)))"
    by (rule merge_fields_concat_cong) (auto simp: merge_fields_flatten_props)
  ultimately show ?thesis by (simp add: map_of_flatten_props)
qed

lemma flatten_props_JArr_primitive:
  assumes "\<forall>x\<in>set xs. \<not> is_object x" and "i < length xs"
  shows "map_of (flatten_props (JArr xs)) (show_nat i) = Some (xs ! i)"
proof -
  have "\<forall>kv\<in>set (entries (JArr xs)). \<not> is_object (snd kv)"
    using assms(1) by (auto dest: set_zip_rightD)
  moreover have "distinct (map fst (entries (JArr xs)))"
    by (simp add: distinct_index_keys[unfolded index_keys_def] index_keys_def)
  ultimately have "fold flat_step (entries (JArr xs)) [] = entries (JArr xs)"
    using fold_flat_step_primitive[of "[]" "entries (JArr xs)"] by simp
  then have "flatten_props (JArr xs) = zip (index_keys (length xs)) xs"
    by (simp add: flatten_props_fold)
  moreover have "map_of (zip (index_keys (length xs)) xs) (index_keys (length xs) ! i) = Some (xs ! i)"
    using assms(2) by (intro map_of_zip_nth) (simp_all add: distinct_index_keys, simp add: index_keys_def)
  ultimately show ?thesis using assms(2) by (simp add: index_keys_def)
qed

lemma map_of_flatten_props_split:
  "map_of (flatten_props (JObj (pre @ (k, v) # post))) =
   map_of (flatten_props (JObj pre)) ++
   (if is_object v then map_of (flatten_props v) else [k \<mapsto> v]) ++
   map_of (flatten_props (JObj post))"
  by (simp add: map_of_flatten_props leaf_fields_JObj_append leaf_fields_JObj_Cons
        merge_fields_append merge_fields_rev)

text \<open>
  C1.  For a record with nested records, \<open>flattenObject\<close> returns a flat record that
  holds exactly the scalar leaf fields of every nesting level: its content is the
  depth-first sequence of leaf fields merged with the later field winning, its names are
  the names of the leaf fields, every one of its values is a primitive, and a field of the
  record that is not a nested value is copied as it is unless a later leaf field has its
  name.  The result is a function of the argument alone.
\<close>

theorem flattenObject_leaf_fields:
  "\<exists>flat. flattenObject (JObj kvs) = Inr (JObj flat)
      \<and> map_of flat = merge_fields (leaf_fields (JObj kvs))
      \<and> fst ` set flat = fst ` set (leaf_fields (JObj kvs))
      \<and> set flat \<subseteq> set (leaf_fields (JObj kvs))
      \<and> (\<forall>kv\<in>set flat. \<not> is_object (snd kv))
      \<and> distinct (map fst flat)
      \<and> (\<forall>pre k v post. kvs = pre @ (k, v) # post \<and> \<not> is_object v
            \<and> k \<notin> fst ` set (leaf_fields (JObj post)) \<longrightarrow> map_of flat k = Some v)"
proof -
  let ?flat = "flatten_props (JObj kvs)"
  let ?leaves = "leaf_fields (JObj kvs)"
  have m: "map_of ?flat = merge_fields ?leaves" by (rule map_of_flatten_props)
  have d: "distinct (map fst ?flat)" by (rule distinct_flatten_props)
  have names: "fst ` set ?flat = fst ` set ?leaves"
    using m dom_merge_fields[of ?leaves] by (simp add: dom_map_of_conv_image_fst[symmetric])
  have sub: "set ?flat \<subseteq> set ?leaves"
  proof
    fix kv assume "kv \<in> set ?flat"
    then have "map_of ?flat (fst kv) = Some (snd kv)" using d by simp
    then show "kv \<in> set ?leaves" using m merge_fields_Some_mem[of ?leaves "fst kv" "snd kv"] by simp
  qed
  have prim: "\<forall>kv\<in>set ?flat. \<not> is_object (snd kv)"
    using sub leaf_fields_primitive by blast
  have copy: "map_of ?flat k = Some v"
    if "kvs = pre @ (k, v) # post" "\<not> is_object v" "k \<notin> fst ` set (leaf_fields (JObj post))"
    for pre k v post
  proof -
    have "k \<notin> dom (map_of (flatten_props (JObj post)))"
      using that(3) by (simp add: map_of_flatten_props dom_merge_fields)
    then show ?thesis
      using that(1,2) map_of_flatten_props_split[of pre k v post]
      by (simp add: map_add_dom_app_simps)
  qed
  then have c: "\<forall>pre k v post. kvs = pre @ (k, v) # post \<and> \<not> is_object v
            \<and> k \<notin> fst ` set (leaf_fields (JObj post)) \<longrightarrow> map_of ?flat k = Some v"
    by blast
  from flattenObject_JObj[of kvs] m names sub prim d c show ?thesis
    by - (rule exI[of _ ?flat], (intro conjI; assumption))
qed

theorem flattenObject_leaf_fields_witness:
  "flattenObject (JObj [(''id'', JNum 1),
                        (''user'', JObj [(''id'', JNum 7), (''geo'', JObj [(''lat'', JNum 3)])]),
                        (''ok'', JBool True)])
     = Inr (JObj [(''id'', JNum 7), (''lat'', JNum 3), (''ok'', JBool True)])
   \<and> merge_fields (leaf_fields (JObj [(''id'', JNum 1),
                        (''user'', JObj [(''id'', JNum 7), (''geo'', JObj [(''lat'', JNum 3)])]),
                        (''ok'', JBool True)]))
     = map_of [(''id'', JNum 7), (''lat'', JNum 3), (''ok'', JBool True)]"
proof -
  let ?kvs = "[(''id'', JNum 1),
               (''user'', JObj [(''id'', JNum 7), (''geo'', JObj [(''lat'', JNum 3)])]),
               (''ok'', JBool True)]"
  from flattenObject_leaf_fields[of ?kvs] obtain flat
    where f: "flattenObject (JObj ?kvs) = Inr (JObj flat)"
      and m: "map_of flat = merge_fields (leaf_fields (JObj ?kvs))"
    by blast
  have e: "flattenObject (JObj ?kvs) = Inr (JObj [(''id'', JNum 7), (''lat'', JNum 3), (''ok'', JBool True)])"
    by (simp add: flattenObject_def flatten_props.simps object_assign_def)
  from f e have "flat = [(''id'', JNum 7), (''lat'', JNum 3), (''ok'', JBool True)]" by simp
  with m e show ?thesis by simp
qed

text \<open>
  C2.  On a record whose fields are all scalar (no field holds an object or an array),
  \<open>flattenObject\<close> returns the record as it is.
\<close>

theorem flattenObject_identity_on_flat:
  "distinct (map fst kvs) \<Longrightarrow> \<forall>kv\<in>set kvs. \<not> is_object (snd kv) \<Longrightarrow>
   flattenObject (JObj kvs) = Inr (JObj kvs)"
  by (simp add: flattenObject_JObj flatten_props_primitive)

theorem flattenObject_identity_on_flat_witness:
  "distinct (map fst [(''id'', JNum 1), (''name'', JStr ''ann''), (''note'', JNull)])
   \<and> list_all (\<lambda>kv. \<not> is_object (snd kv)) [(''id'', JNum 1), (''name'', JStr ''ann''), (''note'', JNull)]
   \<and> flattenObject (JObj [(''id'', JNum 1), (''name'', JStr ''ann''), (''note'', JNull)])
       = Inr (JObj [(''id'', JNum 1), (''name'', JStr ''ann''), (''note'', JNull)])"
proof -
  have d: "distinct (map fst [(''id'', JNum 1), (''name'', JStr ''ann''), (''note'', JNull)])"
    by simp
  have p: "\<forall>kv\<in>set [(''id'', JNum 1), (''name'', JStr ''ann''), (''note'', JNull)]. \<not> is_object (snd kv)"
    by simp
  from d p flattenObject_identity_on_flat[OF d p] show ?thesis by simp
qed

text \<open>
  C10, as stated, fails on an array of records: the only element of the array is not
  merged under its index \<open>0\<close>, its own field is.
\<close>

theorem flattenObject_array_of_records_counterexample:
  "flattenObject (JObj [(''tags'', JArr [JObj [(''x'', JNum 1)]])]) = Inr (JObj [(''x'', JNum 1)])
   \<and> map_of (flatten_props (JObj [(''tags'', JArr [JObj [(''x'', JNum 1)]])])) ''0'' = None"
  by (simp add: flattenObject_def flatten_props.simps object_assign_def index_keys_def
        show_nat.simps digit_def)

text \<open>
  C10, amended.  For a record with an array-valued field, \<open>flattenObject\<close> does not
  copy the array as a field value: no value of the result is an array or an object.  The
  array is flattened as a nested object whose property names are the indices, and the
  outcome is merged into the top level in field order, later merges overwriting earlier
  ones.  In index order, an element that is a primitive is merged under its index and an
  element that is itself an object or an array is flattened in turn, its own leaf fields
  being merged and not its index.  When every element is a primitive, the array
  contributes each element under its index.
\<close>

theorem flattenObject_array_field:
  "\<exists>flat. flattenObject (JObj (pre @ (k, JArr xs) # post)) = Inr (JObj flat)
      \<and> (\<forall>key v. map_of flat key = Some v \<longrightarrow> \<not> is_object v)
      \<and> map_of flat = map_of (flatten_props (JObj pre)) ++ map_of (flatten_props (JArr xs))
                        ++ map_of (flatten_props (JObj post))
      \<and> map_of (flatten_props (JArr xs)) =
          merge_fields (concat (map (\<lambda>(i, x). if is_object x then flatten_props x else [(show_nat i, x)])
                                  (zip [0..<length xs] xs)))
      \<and> ((\<forall>x\<in>set xs. \<not> is_object x) \<longrightarrow>
           (\<forall>i<length xs. map_of (flatten_props (JArr xs)) (show_nat i) = Some (xs ! i)))"
proof -
  let ?flat = "flatten_props (JObj (pre @ (k, JArr xs) # post))"
  have "\<forall>key v. map_of ?flat key = Some v \<longrightarrow> \<not> is_object v"
    using flatten_props_values by blast
  moreover have "map_of ?flat = map_of (flatten_props (JObj pre)) ++ map_of (flatten_props (JArr xs))
                        ++ map_of (flatten_props (JObj post))"
    using map_of_flatten_props_split[of pre k "JArr xs" post] by simp
  ultimately show ?thesis
    using map_of_flatten_props_JArr[of xs] flatten_props_JArr_primitive[of xs]
    by (intro exI[of _ ?flat]) (simp add: flattenObject_JObj)
qed

theorem flattenObject_array_field_witness:
  "list_all (\<lambda>x. \<not> is_object x) [JNum 1, JNum 2]
   \<and> map_of (flatten_props (JArr [JNum 1, JNum 2])) (show_nat 1) = Some (JNum 2)
   \<and> map_of (flatten_props (JObj ([] @ (''a'', JArr [JNum 1, JNum 2]) # [(''b'', JArr [JNum 3])])))
       = map_of [(''0'', JNum 3), (''1'', JNum 2)]"
proof -
  have p: "\<forall>x\<in>set [JNum 1, JNum 2]. \<not> is_object x" by simp
  from flattenObject_array_field[of "[]" "''a''" "[JNum 1, JNum 2]" "[(''b'', JArr [JNum 3])]"]
  have "(\<forall>x\<in>set [JNum 1, JNum 2]. \<not> is_object x) \<longrightarrow>
        (\<forall>i<length [JNum 1, JNum 2]. map_of (flatten_props (JArr [JNum 1, JNum 2])) (show_nat i)
            = Some ([JNum 1, JNum 2] ! i))"
    by blast
  with p have "map_of (flatten_props (JArr [JNum 1, JNum 2])) (show_nat 1) = Some ([JNum 1, JNum 2] ! 1)"
    by simp
  moreover have "flatten_props (JObj ([] @ (''a'', JArr [JNum 1, JNum 2]) # [(''b'', JArr [JNum 3])]))
       = [(''0'', JNum 3), (''1'', JNum 2)]"
    by (simp add: flatten_props.simps object_assign_def index_keys_def show_nat.simps digit_def)
  ultimately show ?thesis using p by simp
qed

section \<open>Format detection\<close>

lemma lastIndexOf_last_dot:
  "c \<notin> set e \<Longrightarrow> lastIndexOf (stem @ c # e) c = int (length stem)"
proof -
  assume "c \<notin> set e"
  then have "takeWhile (\<lambda>x. x \<noteq> c) (rev e @ c # rev stem) = rev e"
    by (auto simp: takeWhile_tail takeWhile_eq_all_conv)
  then show ?thesis by (simp add: lastIndexOf_def)
qed

lemma extension_of_last_dot:
  "CHR ''.'' \<notin> set e \<Longrightarrow> extension_of (stem @ ''.'' @ e) = ''.'' @ e"
  using lastIndexOf_last_dot[of "CHR ''.''" e stem]
  by (simp add: extension_of_def substr_def)

lemma supported_all:
  "list_all (\<lambda>(e, d). CHR ''.'' \<notin> set e \<and> decoder_of (''.'' @ e) = Some d) supported_extensions"
  by (simp add: supported_extensions_def decoder_of_def)

lemma supported_no_dot: "(e, d) \<in> set supported_extensions \<Longrightarrow> CHR ''.'' \<notin> set e"
  using supported_all unfolding list_all_iff by blast

lemma supported_decoder: "(e, d) \<in> set supported_extensions \<Longrightarrow> decoder_of (''.'' @ e) = Some d"
  using supported_all unfolding list_all_iff by blast

lemma decoder_of_table:
  "decoder_of ext =
     (if ext = ''.parquet'' then Some Parquet
      else map_of (map (\<lambda>(e, d). (''.'' @ e, d)) supported_extensions) ext)"
  by (simp add: supported_extensions_def decoder_of_def)

text \<open>
  C3, as stated, fails on an extension in upper case: the labels of the \<open>switch\<close> are
  compared as they are written, so \<open>data.CSV\<close> selects no decoder while \<open>data.csv\<close>
  selects the passthrough decoder.
\<close>

theorem format_detector_case_counterexample:
  "decoder_of (fileExtension (DataPreview ''/d/data.CSV'' ''file:///d/data.CSV'' ''data.CSV'' (JObj []) Map.empty)) = None
   \<and> decoder_of (fileExtension (DataPreview ''/d/data.csv'' ''file:///d/data.csv'' ''data.csv'' (JObj []) Map.empty)) = Some Passthrough"
  by (simp add: DataPreview_def extension_of_def lastIndexOf_def substr_def decoder_of_def)

text \<open>
  C3, amended.  For a file whose name ends in a dot and one of the enumerated extensions
  in lower case, the extension the preview keeps is that dot and extension, and the
  detector returns the decoder the table gives for it.  The decoder is a function of the
  extension alone: the exact, case-sensitive lookup of the extension in the table
  (\<open>.parquet\<close> is recognised as well and has no decoder behind it yet).
\<close>

theorem format_detector_by_extension:
  "((e, d) \<in> set supported_extensions \<longrightarrow>
      fileExtension (DataPreview fsPath uriString (stem @ ''.'' @ e) viewConfig fs) = ''.'' @ e
      \<and> decoder_of (fileExtension (DataPreview fsPath uriString (stem @ ''.'' @ e) viewConfig fs)) = Some d)
   \<and> decoder_of ext =
       (if ext = ''.parquet'' then Some Parquet
        else map_of (map (\<lambda>(e, d). (''.'' @ e, d)) supported_extensions) ext)"
proof -
  have "fileExtension (DataPreview fsPath uriString (stem @ ''.'' @ e) viewConfig fs) = ''.'' @ e"
    if "(e, d) \<in> set supported_extensions"
    using extension_of_last_dot[OF supported_no_dot[OF that], of stem] by (simp add: DataPreview_def)
  then show ?thesis
    using supported_decoder[of e d] decoder_of_table[of ext] by simp
qed

theorem format_detector_by_extension_witness:
  "fileExtension (DataPreview ''/d/Report.v2.xlsx'' ''file:///d/Report.v2.xlsx'' (''Report.v2'' @ ''.'' @ ''xlsx'') (JObj []) Map.empty)
     = ''.xlsx''
   \<and> decoder_of (fileExtension (DataPreview ''/d/Report.v2.xlsx'' ''file:///d/Report.v2.xlsx'' (''Report.v2'' @ ''.'' @ ''xlsx'') (JObj []) Map.empty))
     = Some BinarySpreadsheet
   \<and> decoder_of ''.XLSX'' = None"
proof -
  have m: "(''xlsx'', BinarySpreadsheet) \<in> set supported_extensions"
    by (simp add: supported_extensions_def)
  note inst = format_detector_by_extension[of "''xlsx''" BinarySpreadsheet "''/d/Report.v2.xlsx''"
      "''file:///d/Report.v2.xlsx''" "''Report.v2''" "JObj []" Map.empty "''.XLSX''"]
  from inst m have
    "fileExtension (DataPreview ''/d/Report.v2.xlsx'' ''file:///d/Report.v2.xlsx'' (''Report.v2'' @ ''.'' @ ''xlsx'') (JObj []) Map.empty)
       = ''.'' @ ''xlsx''"
    and "decoder_of (fileExtension (DataPreview ''/d/Report.v2.xlsx'' ''file:///d/Report.v2.xlsx'' (''Report.v2'' @ ''.'' @ ''xlsx'') (JObj []) Map.empty))
       = Some BinarySpreadsheet"
    by blast+
  moreover from inst have "decoder_of ''.XLSX'' =
       (if ''.XLSX'' = ''.parquet'' then Some Parquet
        else map_of (map (\<lambda>(e, d). (''.'' @ e, d)) supported_extensions) ''.XLSX'')"
    by blast
  then have "decoder_of ''.XLSX'' = None" by (simp add: supported_extensions_def)
  ultimately show ?thesis by simp
qed

section \<open>Requesting data\<close>

text \<open>
  C4.  For a file that exists and whose extension no label of the \<open>switch\<close> matches,
  \<open>getFileData\<close> returns \<open>null\<close> and nothing is posted; \<open>loadData\<close>, called
  after the \<open>catch\<close> block of \<open>refresh\<close>, then reads \<open>null.length\<close>, and the
  TypeError leaves \<open>refresh\<close>.  The guard of \<open>loadData\<close> tests for \<open>undefined\<close>
  and for an empty value, not for \<open>null\<close>.
\<close>

theorem refresh_unrecognized_extension:
  "files st (uri_fsPath st) = Some content \<Longrightarrow> decoder_of (fileExtension st) = None \<Longrightarrow>
   refresh L table st =
     (Some (TypeError ''Cannot read property 'length' of null''),
      if length table > 0 then st\<lparr>dataTable := table\<rparr> else st)"
  by (simp add: refresh_def getFileData_def loadData_def)

theorem refresh_unrecognized_extension_witness:
  "refresh sample_libs []
     (DataPreview ''/d/data.foo'' ''file:///d/data.foo'' ''data.foo'' (JObj []) [''/d/data.foo'' \<mapsto> ''abc''])
   = (Some (TypeError ''Cannot read property 'length' of null''),
      DataPreview ''/d/data.foo'' ''file:///d/data.foo'' ''data.foo'' (JObj []) [''/d/data.foo'' \<mapsto> ''abc''])"
proof -
  let ?st = "DataPreview ''/d/data.foo'' ''file:///d/data.foo'' ''data.foo'' (JObj []) [''/d/data.foo'' \<mapsto> ''abc'']"
  have f: "files ?st (uri_fsPath ?st) = Some ''abc''" by (simp add: DataPreview_def)
  have d: "decoder_of (fileExtension ?st) = None"
    by (simp add: DataPreview_def extension_of_def lastIndexOf_def substr_def decoder_of_def)
  from refresh_unrecognized_extension[OF f d, of sample_libs "[]"] show ?thesis by simp
qed

section \<open>Spreadsheets\<close>

lemma createJsonFile_fields [simp]:
  "tableList (createJsonFile L p v st) = tableList st"
  "dataTable (createJsonFile L p v st) = dataTable st"
  "config (createJsonFile L p v st) = config st"
  "schema (createJsonFile L p v st) = schema st"
  "postMessage (createJsonFile L p v st) = postMessage st"
  "uri_fsPath (createJsonFile L p v st) = uri_fsPath st"
  "uri_string (createJsonFile L p v st) = uri_string st"
  "fileName (createJsonFile L p v st) = fileName st"
  "fileExtension (createJsonFile L p v st) = fileExtension st"
  "writable (createJsonFile L p v st) = writable st"
  by (simp_all add: createJsonFile_def Let_def)

text \<open>
  C8.  With no table requested (\<open>_dataTable\<close> is empty), a workbook of more than one
  sheet yields the rows of its first sheet and its sheet names become the table list;
  a workbook of at most one sheet leaves the table list as it was.
\<close>

theorem getExcelData_first_sheet:
  "dataTable st = [] \<Longrightarrow>
   (length (SheetNames wb) > 1 \<longrightarrow>
      fst (getExcelData L wb st) = sheet_to_json (Sheets wb (hd (SheetNames wb)))
      \<and> tableList (snd (getExcelData L wb st)) = SheetNames wb
      \<and> dataTable (snd (getExcelData L wb st)) = [])
   \<and> (length (SheetNames wb) > 1 \<and> Sheets wb (hd (SheetNames wb)) = Some rows \<longrightarrow>
      fst (getExcelData L wb st) = rows)
   \<and> (\<not> length (SheetNames wb) > 1 \<longrightarrow> tableList (snd (getExcelData L wb st)) = tableList st)"
  by (cases "SheetNames wb") (simp_all add: getExcelData_def Let_def sheet_to_json_def)

theorem getExcelData_first_sheet_witness:
  "fst (getExcelData sample_libs
      \<lparr> SheetNames = [''Sales'', ''Costs''],
        Sheets = [''Sales'' \<mapsto> [JObj [(''q'', JNum 1)]], ''Costs'' \<mapsto> [JObj [(''c'', JNum 9)]]] \<rparr>
      (DataPreview ''/d/book.xlsx'' ''file:///d/book.xlsx'' ''book.xlsx'' (JObj []) [''/d/book.xlsx'' \<mapsto> ''PK'']))
     = [JObj [(''q'', JNum 1)]]
   \<and> tableList (snd (getExcelData sample_libs
      \<lparr> SheetNames = [''Sales'', ''Costs''],
        Sheets = [''Sales'' \<mapsto> [JObj [(''q'', JNum 1)]], ''Costs'' \<mapsto> [JObj [(''c'', JNum 9)]]] \<rparr>
      (DataPreview ''/d/book.xlsx'' ''file:///d/book.xlsx'' ''book.xlsx'' (JObj []) [''/d/book.xlsx'' \<mapsto> ''PK''])))
     = [''Sales'', ''Costs'']"
proof -
  let ?wb = "\<lparr> SheetNames = [''Sales'', ''Costs''],
        Sheets = [''Sales'' \<mapsto> [JObj [(''q'', JNum 1)]], ''Costs'' \<mapsto> [JObj [(''c'', JNum 9)]]] \<rparr>"
  let ?st = "DataPreview ''/d/book.xlsx'' ''file:///d/book.xlsx'' ''book.xlsx'' (JObj []) [''/d/book.xlsx'' \<mapsto> ''PK'']"
  have t: "dataTable ?st = []" by (simp add: DataPreview_def)
  have n: "length (SheetNames ?wb) > 1" by simp
  have h: "Sheets ?wb (hd (SheetNames ?wb)) = Some [JObj [(''q'', JNum 1)]]" by simp
  from getExcelData_first_sheet[OF t, of ?wb sample_libs "[JObj [(''q'', JNum 1)]]"] n h
  have "fst (getExcelData sample_libs ?wb ?st) = [JObj [(''q'', JNum 1)]]"
    and "tableList (snd (getExcelData sample_libs ?wb ?st)) = SheetNames ?wb"
    by blast+
  then show ?thesis by simp
qed

section \<open>Companion files\<close>

lemma createJsonFile_existing: "p \<in> dom (files st) \<Longrightarrow> createJsonFile L p v st = st"
  by (simp add: createJsonFile_def)

lemma createJsonFile_keeps:
  "files st q = Some c \<Longrightarrow> files (createJsonFile L p v st) q = Some c"
  by (auto simp: createJsonFile_def Let_def)

lemma loadData_files [simp]: "files (snd (loadData d st)) = files st"
  by (simp add: loadData_def)

lemma avro_on_end_keeps:
  "files st q = Some c \<Longrightarrow> files (snd (snd (avro_on_end L v st))) q = Some c"
  by (simp add: avro_on_end_def Let_def case_prod_beta createJsonFile_keeps split: sum.splits)

lemma avro_on_keeps:
  "files st q = Some c \<Longrightarrow> files (snd (snd (avro_on L ev v st))) q = Some c"
  by (cases ev) (simp_all add: avro_on_end_keeps)

lemma avro_events_keeps:
  "files st q = Some c \<Longrightarrow> files (snd (snd (avro_events L evs v st))) q = Some c"
proof (induction evs arbitrary: v st)
  case Nil
  then show ?case by simp
next
  case (Cons ev evs)
  obtain err v1 st1 where a: "avro_on L ev v st = (err, v1, st1)" by (cases "avro_on L ev v st")
  with Cons.prems avro_on_keeps[of st q c L ev v] have "files st1 q = Some c" by simp
  from Cons.IH[OF this, of v1] a show ?case by (simp add: case_prod_beta)
qed

lemma getExcelData_keeps:
  "files st q = Some c \<Longrightarrow> files (snd (getExcelData L wb st)) q = Some c"
  by (simp add: getExcelData_def Let_def createJsonFile_keeps)

lemma getArrowData_keeps:
  "files st q = Some c \<Longrightarrow> files (snd (getArrowData L t st)) q = Some c"
  by (simp add: getArrowData_def Let_def createJsonFile_keeps)

lemma run_decoder_keeps:
  "files st q = Some c \<Longrightarrow> files (snd (run_decoder L d content st)) q = Some c"
  by (cases d)
     (simp_all add: run_decoder_def case_prod_beta getExcelData_keeps getArrowData_keeps
        split: sum.splits)

lemma getFileData_keeps:
  "files st q = Some c \<Longrightarrow> files (snd (getFileData L name st)) q = Some c"
  by (simp add: getFileData_def run_decoder_keeps split: option.splits)

lemma refresh_keeps:
  "files st q = Some c \<Longrightarrow> files (snd (refresh L table st)) q = Some c"
proof -
  assume f: "files st q = Some c"
  let ?st1 = "if length table > 0 then st\<lparr>dataTable := table\<rparr> else st"
  obtain r st2 where g: "getFileData L (fileName ?st1) ?st1 = (r, st2)"
    by (cases "getFileData L (fileName ?st1) ?st1")
  from f have "files ?st1 q = Some c" by simp
  from getFileData_keeps[OF this, of L "fileName ?st1", unfolded g snd_conv]
  have "files st2 q = Some c" .
  with g show ?thesis by (cases r) (simp_all add: refresh_def Let_def)
qed

text \<open>
  C5.  \<open>createJsonFile\<close> does nothing at a path where a file exists, and whatever it
  is asked to write, every existing file keeps its content.  The same holds for a whole
  Avro decode of the preview, which writes its \<open>.json\<close> and \<open>.schema.json\<close>
  files through \<open>createJsonFile\<close>, and for every \<open>refresh\<close>.
\<close>

theorem createJsonFile_skip_if_exists:
  "(p \<in> dom (files st) \<longrightarrow> createJsonFile L p jv st = st)
   \<and> (files st q = Some c \<longrightarrow> files (createJsonFile L p jv st) q = Some c)
   \<and> (files st q = Some c \<longrightarrow> files (snd (snd (avro_events L evs v st))) q = Some c)
   \<and> (files st q = Some c \<longrightarrow> files (snd (refresh L table st)) q = Some c)"
  by (simp add: createJsonFile_existing createJsonFile_keeps avro_events_keeps refresh_keeps)

theorem createJsonFile_skip_if_exists_witness:
  "createJsonFile sample_libs ''/d/x.json'' (JArr [JNum 1])
      (DataPreview ''/d/x.avro'' ''file:///d/x.avro'' ''x.avro'' (JObj [])
         [''/d/x.avro'' \<mapsto> ''Obj'', ''/d/x.json'' \<mapsto> ''old''])
     = DataPreview ''/d/x.avro'' ''file:///d/x.avro'' ''x.avro'' (JObj [])
         [''/d/x.avro'' \<mapsto> ''Obj'', ''/d/x.json'' \<mapsto> ''old'']
   \<and> files (snd (snd (avro_events sample_libs [Metadata (JStr ''int''), Data (JObj [(''id'', JNum 1)]), End]
        avro_start
        (DataPreview ''/d/x.avro'' ''file:///d/x.avro'' ''x.avro'' (JObj [])
           [''/d/x.avro'' \<mapsto> ''Obj'', ''/d/x.json'' \<mapsto> ''old''])))) ''/d/x.json'' = Some ''old''
   \<and> files (snd (refresh sample_libs []
        (DataPreview ''/d/x.avro'' ''file:///d/x.avro'' ''x.avro'' (JObj [])
           [''/d/x.avro'' \<mapsto> ''Obj'', ''/d/x.json'' \<mapsto> ''old'']))) ''/d/x.json'' = Some ''old''"
proof -
  let ?st = "DataPreview ''/d/x.avro'' ''file:///d/x.avro'' ''x.avro'' (JObj [])
         [''/d/x.avro'' \<mapsto> ''Obj'', ''/d/x.json'' \<mapsto> ''old'']"
  have d: "''/d/x.json'' \<in> dom (files ?st)" and f: "files ?st ''/d/x.json'' = Some ''old''"
    by (simp_all add: DataPreview_def)
  from createJsonFile_skip_if_exists[where p="''/d/x.json''" and st="?st" and L=sample_libs
      and jv="JArr [JNum 1]" and q="''/d/x.json''" and c="''old''"
      and evs="[Metadata (JStr ''int''), Data (JObj [(''id'', JNum 1)]), End]" and v=avro_start
      and table="[]"]
    d f
  show ?thesis by blast
qed

section \<open>The Avro decode of the preview\<close>

lemma avro_events_data:
  "avro_events L (map Data rows @ evs) v st = avro_events L evs (v\<lparr>dataRows := dataRows v @ rows\<rparr>) st"
  by (induction rows arbitrary: v) simp_all

lemma flatten_rows_records:
  "\<forall>r\<in>set rows. r \<noteq> JNull \<and> r \<noteq> JUndefined \<Longrightarrow>
   flatten_rows rows = Inr (map (\<lambda>r. JObj (flatten_props r)) rows)"
  by (induction rows) (simp_all add: flattenObject_def)

lemma avro_decode:
  assumes "\<forall>r\<in>set rows. r \<noteq> JNull \<and> r \<noteq> JUndefined"
  shows "avro_events L (Metadata s # map Data rows @ [End]) avro_start st =
     ([], \<lparr> dataSchema = s, dataRows = map (\<lambda>r. JObj (flatten_props r)) rows \<rparr>,
      snd (loadData (DRows (map (\<lambda>r. JObj (flatten_props r)) rows))
        (createJsonFile L (replace (uri_fsPath st) (fileExtension st) ''.schema.json'') s
          (createJsonFile L (replace (uri_fsPath st) (fileExtension st) ''.json'') (JArr rows) st))))"
  using flatten_rows_records[OF assms]
  by (simp add: avro_events_data avro_start_def avro_on_end_def Let_def loadData_def)

lemma loadData_postMessage:
  "postMessage (snd (loadData (DRows rows) st)) =
     (if rows = [] then postMessage st
      else postMessage st @
        [PostRefresh \<lparr> m_fileName = fileName st, m_uri = uri_string st,
                       m_config = config st, m_schema = schema st,
                       m_tableList = tableList st, m_table = dataTable st,
                       m_data = DRows rows \<rparr>])"
  by (simp add: loadData_def data_length_def)

lemma refresh_avro:
  "fileExtension st = ''.avro'' \<Longrightarrow> files st (uri_fsPath st) = Some content \<Longrightarrow>
   refresh L [] st = (None, st)"
  by (simp add: refresh_def getFileData_def decoder_of_def run_decoder_def avro_start_def
        loadData_def data_length_def)

text \<open>
  C6, as stated, fails for a file without rows: after the schema event and the end of the
  stream nothing has been posted, since \<open>loadData\<close> returns on an empty array.
\<close>

theorem getAvroData_no_rows_counterexample:
  "postMessage (snd (snd (avro_events sample_libs [Metadata (JStr ''int''), End] avro_start
      (DataPreview ''/d/x.avro'' ''file:///d/x.avro'' ''x.avro'' (JObj []) [''/d/x.avro'' \<mapsto> ''Obj'']))))
   = []"
  using avro_decode[of "[]" sample_libs "JStr ''int''"
      "DataPreview ''/d/x.avro'' ''file:///d/x.avro'' ''x.avro'' (JObj []) [''/d/x.avro'' \<mapsto> ''Obj'']"]
  by (simp add: loadData_postMessage DataPreview_def)

text \<open>
  C6, amended.  For a decode whose events are the schema, then the rows, then the end of
  the stream, and whose rows are neither \<open>null\<close> nor \<open>undefined\<close>: no handler
  throws; at the end every accumulated row is flattened; when there is at least one row,
  exactly one message is posted, it carries the complete flattened sequence, and it is the
  only message of the decode; when there is none, nothing is posted.  The \<open>refresh\<close>
  that started the decode posts nothing either.  That the schema event comes before the
  row events is the decoder library's order of events, taken as given.
\<close>

theorem getAvroData_final_publish:
  assumes "\<forall>r\<in>set rows. r \<noteq> JNull \<and> r \<noteq> JUndefined"
  shows "\<exists>v' st' flats.
      avro_events L (Metadata s # map Data rows @ [End]) avro_start st = ([], v', st')
      \<and> flatten_rows rows = Inr flats \<and> length flats = length rows
      \<and> (\<forall>i<length rows. flattenObject (rows ! i) = Inr (flats ! i))
      \<and> dataRows v' = flats
      \<and> (rows = [] \<longrightarrow> postMessage st' = postMessage st)
      \<and> (rows \<noteq> [] \<longrightarrow>
           (\<exists>msg. postMessage st' = postMessage st @ [PostRefresh msg] \<and> m_data msg = DRows flats))
      \<and> (fileExtension st = ''.avro'' \<and> files st (uri_fsPath st) = Some content \<longrightarrow>
           refresh L [] st = (None, st))"
proof -
  let ?flats = "map (\<lambda>r. JObj (flatten_props r)) rows"
  have each: "\<forall>i<length rows. flattenObject (rows ! i) = Inr (?flats ! i)"
    using assms by (simp add: flattenObject_def)
  show ?thesis
    using avro_decode[OF assms, of L s st] flatten_rows_records[OF assms] each
      refresh_avro[of st content L]
    by (simp add: loadData_postMessage)
qed

theorem getAvroData_final_publish_witness:
  "list_all (\<lambda>r. r \<noteq> JNull \<and> r \<noteq> JUndefined) [JObj [(''id'', JNum 1)], JObj [(''id'', JNum 2)]]
   \<and> flatten_rows [JObj [(''id'', JNum 1)], JObj [(''id'', JNum 2)]]
        = Inr [JObj [(''id'', JNum 1)], JObj [(''id'', JNum 2)]]
   \<and> (\<exists>msg. postMessage (snd (snd (avro_events sample_libs
          (Metadata (JStr ''int'') # map Data [JObj [(''id'', JNum 1)], JObj [(''id'', JNum 2)]] @ [End])
          avro_start
          (DataPreview ''/d/x.avro'' ''file:///d/x.avro'' ''x.avro'' (JObj []) [''/d/x.avro'' \<mapsto> ''Obj''])))) = [PostRefresh msg]
        \<and> m_data msg = DRows [JObj [(''id'', JNum 1)], JObj [(''id'', JNum 2)]])"
proof -
  let ?rows = "[JObj [(''id'', JNum 1)], JObj [(''id'', JNum 2)]]"
  let ?st = "DataPreview ''/d/x.avro'' ''file:///d/x.avro'' ''x.avro'' (JObj []) [''/d/x.avro'' \<mapsto> ''Obj'']"
  have h: "\<forall>r\<in>set ?rows. r \<noteq> JNull \<and> r \<noteq> JUndefined" by simp
  have f: "flatten_rows ?rows = Inr ?rows"
    by (simp add: flattenObject_def flatten_props.simps)
  from getAvroData_final_publish[OF h, of sample_libs "JStr ''int''" ?st]
  obtain v' st' flats where
    a: "avro_events sample_libs (Metadata (JStr ''int'') # map Data ?rows @ [End]) avro_start ?st = ([], v', st')"
    and b: "flatten_rows ?rows = Inr flats"
    and c: "?rows \<noteq> [] \<longrightarrow>
       (\<exists>msg. postMessage st' = postMessage ?st @ [PostRefresh msg] \<and> m_data msg = DRows flats)"
    by blast
  from b[unfolded f] have fl: "flats = ?rows" by simp
  have "?rows \<noteq> []" by simp
  with c obtain msg where m: "postMessage st' = postMessage ?st @ [PostRefresh msg]"
    and md: "m_data msg = DRows flats" by blast
  have s: "snd (snd (avro_events sample_libs (Metadata (JStr ''int'') # map Data ?rows @ [End]) avro_start ?st)) = st'"
    by (simp only: a snd_conv)
  have p0: "postMessage ?st = []" by (simp add: DataPreview_def)
  have "\<exists>msg. postMessage (snd (snd (avro_events sample_libs
          (Metadata (JStr ''int'') # map Data ?rows @ [End]) avro_start ?st))) = [PostRefresh msg]
        \<and> m_data msg = DRows ?rows"
    unfolding s using m md fl p0 by (intro exI[of _ msg]) simp
  with f show ?thesis by simp
qed

section \<open>Loading a view configuration\<close>

lemma starts_with_iff: "starts_with s pat \<longleftrightarrow> (\<exists>post. s = pat @ post)"
  by (induction s pat rule: starts_with.induct) auto

lemma indexOf_lower: "- 1 \<le> indexOf s pat"
  by (induction s) (simp_all add: Let_def)

lemma indexOf_found_iff: "0 \<le> indexOf s pat \<longleftrightarrow> (\<exists>pre post. s = pre @ pat @ post)"
proof (induction s)
  case Nil
  then show ?case by simp
next
  case (Cons c s)
  show ?case
  proof (cases "starts_with (c # s) pat")
    case True
    then obtain post where "c # s = pat @ post" by (auto simp: starts_with_iff)
    then have "c # s = [] @ pat @ post" by simp
    then have "\<exists>pre post. c # s = pre @ pat @ post" by blast
    with True show ?thesis by simp
  next
    case False
    have "(\<exists>pre post. c # s = pre @ pat @ post) \<longleftrightarrow> (\<exists>pre post. s = pre @ pat @ post)"
    proof
      assume "\<exists>pre post. c # s = pre @ pat @ post"
      then obtain pre post where e: "c # s = pre @ pat @ post" by blast
      show "\<exists>pre post. s = pre @ pat @ post"
      proof (cases pre)
        case Nil
        with e False show ?thesis by (auto simp: starts_with_iff)
      next
        case (Cons a pre')
        with e have "s = pre' @ pat @ post" by simp
        then show ?thesis by blast
      qed
    next
      assume "\<exists>pre post. s = pre @ pat @ post"
      then obtain pre post where "s = pre @ pat @ post" by blast
      then have "c # s = (c # pre) @ pat @ post" by simp
      then show "\<exists>pre post. c # s = pre @ pat @ post" by blast
    qed
    moreover have "0 \<le> indexOf (c # s) pat \<longleftrightarrow> 0 \<le> indexOf s pat"
      using False by (auto simp: Let_def)
    ultimately show ?thesis using Cons.IH by simp
  qed
qed

lemma loadData_fields [simp]:
  "config (snd (loadData d st)) = config st"
  "dataTable (snd (loadData d st)) = dataTable st"
  by (simp_all add: loadData_def)

lemma getExcelData_fields [simp]:
  "config (snd (getExcelData L wb st)) = config st"
  "dataTable (snd (getExcelData L wb st)) = dataTable st"
  by (simp_all add: getExcelData_def Let_def)

lemma getArrowData_fields [simp]:
  "config (snd (getArrowData L t st)) = config st"
  "dataTable (snd (getArrowData L t st)) = dataTable st"
  by (simp_all add: getArrowData_def Let_def)

lemma run_decoder_fields [simp]:
  "config (snd (run_decoder L d content st)) = config st"
  "dataTable (snd (run_decoder L d content st)) = dataTable st"
  by (cases d; simp add: run_decoder_def case_prod_beta split: sum.splits)+

lemma getFileData_fields [simp]:
  "config (snd (getFileData L name st)) = config st"
  "dataTable (snd (getFileData L name st)) = dataTable st"
  by (simp_all add: getFileData_def split: option.splits)

lemma refresh_fields:
  "config (snd (refresh L table st)) = config st"
  "dataTable (snd (refresh L table st)) = (if table = [] then dataTable st else table)"
proof -
  let ?st1 = "if length table > 0 then st\<lparr>dataTable := table\<rparr> else st"
  obtain r st2 where g: "getFileData L (fileName ?st1) ?st1 = (r, st2)"
    by (cases "getFileData L (fileName ?st1) ?st1")
  have c: "config st2 = config ?st1"
    using getFileData_fields(1)[of L "fileName ?st1" ?st1, unfolded g snd_conv] .
  have t: "dataTable st2 = dataTable ?st1"
    using getFileData_fields(2)[of L "fileName ?st1" ?st1, unfolded g snd_conv] .
  show "config (snd (refresh L table st)) = config st"
    using g c by (cases r) (simp_all add: refresh_def Let_def)
  show "dataTable (snd (refresh L table st)) = (if table = [] then dataTable st else table)"
    using g t by (cases r) (simp_all add: refresh_def Let_def)
qed

text \<open>
  C7.  \<open>loadConfig\<close> tests \<open>fsPath.indexOf(dataFileName) >= 0\<close>: whether the
  recorded name occurs somewhere in the path of the open document, not whether it is the
  document's file name.  A name that does not occur is rejected: the only effect is the
  mismatch error shown in the window, and \<open>_config\<close> and \<open>_dataTable\<close> are
  unchanged.  A name that occurs is taken for a match, and the preview ends with the
  configuration of the file and with its table name, or the empty name when the file has
  none.  The name occurs exactly when the path is some text, then the name, then some
  text; so a config recorded for \<open>a.csv\<close> is adopted by a preview of \<open>data.csv\<close>.
\<close>

theorem loadConfig_substring_match:
  "(indexOf (uri_fsPath st) (to_text (vc_dataFileName vc)) < 0 \<longrightarrow>
      loadConfig L vc st =
        (None, st\<lparr>shown := shown st @
           [ErrorMessage (mismatch_message (to_text (vc_dataFileName vc)) (fileName st))]\<rparr>))
   \<and> (0 \<le> indexOf (uri_fsPath st) (to_text (vc_dataFileName vc)) \<longrightarrow>
        config (snd (loadConfig L vc st)) = vc_config vc
        \<and> dataTable (snd (loadConfig L vc st)) = (case vc_dataTable vc of None \<Rightarrow> [] | Some t \<Rightarrow> t))
   \<and> (0 \<le> indexOf (uri_fsPath st) (to_text (vc_dataFileName vc)) \<longleftrightarrow>
        (\<exists>pre post. uri_fsPath st = pre @ to_text (vc_dataFileName vc) @ post))"
proof -
  let ?i = "indexOf (uri_fsPath st) (to_text (vc_dataFileName vc))"
  have r: "?i < 0 \<longrightarrow>
      loadConfig L vc st =
        (None, st\<lparr>shown := shown st @
           [ErrorMessage (mismatch_message (to_text (vc_dataFileName vc)) (fileName st))]\<rparr>)"
    by (simp add: loadConfig_def)
  have a: "0 \<le> ?i \<longrightarrow>
        config (snd (loadConfig L vc st)) = vc_config vc
        \<and> dataTable (snd (loadConfig L vc st)) = (case vc_dataTable vc of None \<Rightarrow> [] | Some t \<Rightarrow> t)"
    by (simp add: loadConfig_def Let_def refresh_fields split: option.splits)
  from r a indexOf_found_iff[of "uri_fsPath st" "to_text (vc_dataFileName vc)"]
  show ?thesis by (intro conjI)
qed

theorem loadConfig_substring_match_witness:
  "loadConfig sample_libs
      \<lparr> vc_dataFileName = Some ''other.csv'', vc_config = JObj [(''theme'', JStr ''dark'')], vc_dataTable = None \<rparr>
      (DataPreview ''/d/data.csv'' ''file:///d/data.csv'' ''data.csv'' (JObj []) [''/d/data.csv'' \<mapsto> ''a,b''])
     = (None, (DataPreview ''/d/data.csv'' ''file:///d/data.csv'' ''data.csv'' (JObj []) [''/d/data.csv'' \<mapsto> ''a,b''])
          \<lparr>shown := [ErrorMessage (mismatch_message ''other.csv'' ''data.csv'')]\<rparr>)
   \<and> config (snd (loadConfig sample_libs
      \<lparr> vc_dataFileName = Some ''a.csv'', vc_config = JObj [(''theme'', JStr ''dark'')], vc_dataTable = None \<rparr>
      (DataPreview ''/d/data.csv'' ''file:///d/data.csv'' ''data.csv'' (JObj []) [''/d/data.csv'' \<mapsto> ''a,b''])))
     = JObj [(''theme'', JStr ''dark'')]
   \<and> dataTable (snd (loadConfig sample_libs
      \<lparr> vc_dataFileName = Some ''a.csv'', vc_config = JObj [(''theme'', JStr ''dark'')], vc_dataTable = None \<rparr>
      (DataPreview ''/d/data.csv'' ''file:///d/data.csv'' ''data.csv'' (JObj []) [''/d/data.csv'' \<mapsto> ''a,b''])))
     = []
   \<and> shown (snd (loadConfig sample_libs
      \<lparr> vc_dataFileName = Some ''a.csv'', vc_config = JObj [(''theme'', JStr ''dark'')], vc_dataTable = None \<rparr>
      (DataPreview ''/d/data.csv'' ''file:///d/data.csv'' ''data.csv'' (JObj []) [''/d/data.csv'' \<mapsto> ''a,b''])))
     = []
   \<and> fileName (DataPreview ''/d/data.csv'' ''file:///d/data.csv'' ''data.csv'' (JObj []) [''/d/data.csv'' \<mapsto> ''a,b''])
     = ''data.csv''"
proof -
  let ?st = "DataPreview ''/d/data.csv'' ''file:///d/data.csv'' ''data.csv'' (JObj []) [''/d/data.csv'' \<mapsto> ''a,b'']"
  let ?no = "\<lparr> vc_dataFileName = Some ''other.csv'', vc_config = JObj [(''theme'', JStr ''dark'')], vc_dataTable = None \<rparr>"
  let ?yes = "\<lparr> vc_dataFileName = Some ''a.csv'', vc_config = JObj [(''theme'', JStr ''dark'')], vc_dataTable = None \<rparr>"
  have n: "indexOf (uri_fsPath ?st) (to_text (vc_dataFileName ?no)) < 0"
    by (simp add: DataPreview_def to_text_def)
  have y: "0 \<le> indexOf (uri_fsPath ?st) (to_text (vc_dataFileName ?yes))"
    by (simp add: DataPreview_def to_text_def)
  have s: "shown ?st = []" "fileName ?st = ''data.csv''" by (simp_all add: DataPreview_def)
  have quiet: "shown (snd (loadConfig sample_libs ?yes ?st)) = []"
    by (simp add: loadConfig_def Let_def to_text_def DataPreview_def refresh_def getFileData_def
          extension_of_def lastIndexOf_def substr_def decoder_of_def run_decoder_def loadData_def
          data_length_def)
  from loadConfig_substring_match[of ?st ?no sample_libs] n
  have "loadConfig sample_libs ?no ?st =
        (None, ?st\<lparr>shown := shown ?st @
           [ErrorMessage (mismatch_message (to_text (vc_dataFileName ?no)) (fileName ?st))]\<rparr>)"
    by blast
  moreover from loadConfig_substring_match[of ?st ?yes sample_libs] y
  have "config (snd (loadConfig sample_libs ?yes ?st)) = vc_config ?yes
        \<and> dataTable (snd (loadConfig sample_libs ?yes ?st)) = (case vc_dataTable ?yes of None \<Rightarrow> [] | Some t \<Rightarrow> t)"
    by blast
  ultimately show ?thesis using s quiet by (simp add: to_text_def)
qed

section \<open>The content provider's cache\<close>

text \<open>
  C9.  A request for a path that is in \<open>jsonFileDataMap\<close> resolves with the cached
  text, and the function goes on after \<open>resolve\<close>: it opens a decoder for the file
  again, replaces the cached entry by a fresh, empty \<open>JsonData\<close> and registers the
  handlers once more.
\<close>

theorem provideTextDocumentContent_cached:
  "jsonFileDataMap p (strip_json_suffix (u_path u)) = Some cached \<Longrightarrow>
     resolved (fst (provideTextDocumentContent u p)) = Some (jsonData p cached)
     \<and> decoders (snd (provideTextDocumentContent u p)) = decoders p @ [u_string u]
     \<and> jsonFileDataMap (snd (provideTextDocumentContent u p)) (strip_json_suffix (u_path u))
         = Some (allocated p)
     \<and> jsonData (snd (provideTextDocumentContent u p)) (allocated p) = []"
  by (simp add: provideTextDocumentContent_def Let_def resolve_def)

theorem provideTextDocumentContent_cached_witness:
  "(let u = \<lparr> u_path = ''/d/x.avro'', u_string = ''file:///d/x.avro'' \<rparr>;
        p0 = AvroContentProvider ''avro.data.json'' [''/d/x.avro'' \<mapsto> ''Obj''];
        first = provideTextDocumentContent u p0;
        second = provideTextDocumentContent u (snd first)
    in jsonFileDataMap (snd first) (strip_json_suffix (u_path u)) = Some 0
       \<and> resolved (fst first) = None
       \<and> resolved (fst second) = Some (jsonData (snd first) 0)
       \<and> decoders (snd first) = [''file:///d/x.avro'']
       \<and> decoders (snd second) = [''file:///d/x.avro'', ''file:///d/x.avro'']
       \<and> jsonFileDataMap (snd second) (strip_json_suffix (u_path u)) = Some 1
       \<and> jsonData (snd second) 1 = [])"
proof -
  let ?u = "\<lparr> u_path = ''/d/x.avro'', u_string = ''file:///d/x.avro'' \<rparr>"
  let ?p0 = "AvroContentProvider ''avro.data.json'' [''/d/x.avro'' \<mapsto> ''Obj'']"
  let ?first = "provideTextDocumentContent ?u ?p0"
  have c: "jsonFileDataMap (snd ?first) (strip_json_suffix (u_path ?u)) = Some 0"
    by (simp add: provideTextDocumentContent_def AvroContentProvider_def Let_def)
  have d: "decoders (snd ?first) = [''file:///d/x.avro'']"
    and a: "allocated (snd ?first) = 1"
    and r: "resolved (fst ?first) = None"
    by (simp_all add: provideTextDocumentContent_def AvroContentProvider_def Let_def
          strip_json_suffix_def)
  from provideTextDocumentContent_cached[OF c] c d a r show ?thesis
    by (simp add: Let_def)
qed

end
